theory Spec2Isabelle
  imports Main "HOL-Library.Word"
begin

section \<open>Memory and the allocator\<close>

text \<open>
  Pointers are addresses, \<open>0\<close> is the null pointer. \<open>size_t\<close> values are natural
  numbers: memblock.h performs no arithmetic on them apart from \<open>max_size\<close>, and the
  allocator below refuses every request that does not fit under \<open>limit\<close>.
\<close>

type_synonym addr = nat
type_synonym byte = "8 word"

text \<open>
  Modelled from the spec: the allocator interface the buffer consumes
  (\<open>allocate(size) -> pointer | failure\<close>, \<open>reallocate(pointer, newSize) -> pointer | failure\<close>,
  \<open>free(pointer)\<close>) is the C library's and is not part of the repository. The heap is a flat
  byte memory; \<open>blocks\<close> maps the base of every live allocation to its size, \<open>brk\<close> is the
  last address in use, \<open>limit\<close> the last address of the arena, and \<open>freed\<close> logs every
  pointer handed to \<open>free\<close>, most recent first. Fresh storage is never written by the
  allocator: it holds whatever \<open>mem\<close> held there.
\<close>

record heap =
  mem :: "addr \<Rightarrow> byte"
  blocks :: "addr \<rightharpoonup> nat"
  brk :: addr
  limit :: addr
  freed :: "addr list"

definition read_bytes :: "(addr \<Rightarrow> byte) \<Rightarrow> addr \<Rightarrow> nat \<Rightarrow> byte list" where
  "read_bytes m p n = map m [p ..< p + n]"

definition write_bytes :: "(addr \<Rightarrow> byte) \<Rightarrow> addr \<Rightarrow> byte list \<Rightarrow> (addr \<Rightarrow> byte)" where
  "write_bytes m p bs = (\<lambda>a. if p \<le> a \<and> a < p + length bs then bs ! (a - p) else m a)"

text \<open>
  Modelled from the spec: \<open>allocate\<close>. The block starts right after the last address in
  use; the request fails when it does not fit in the arena.
\<close>

definition heap_malloc :: "nat \<Rightarrow> heap \<Rightarrow> (addr \<times> heap) option" where
  "heap_malloc n h =
     (if limit h < brk h + max n 1 then None
      else Some (Suc (brk h),
                 h\<lparr>blocks := (blocks h)(Suc (brk h) \<mapsto> n), brk := brk h + max n 1\<rparr>))"

text \<open>
  Modelled from the spec: \<open>free\<close>. The call is logged and the block leaves the table of
  live allocations.
\<close>

definition heap_free :: "addr \<Rightarrow> heap \<Rightarrow> heap" where
  "heap_free p h = h\<lparr>blocks := (blocks h)(p := None), freed := p # freed h\<rparr>"

text \<open>
  Modelled from the spec: \<open>reallocate\<close>. A null pointer makes it \<open>allocate\<close>. A pointer
  that is not the base of a live allocation is refused. The topmost block is extended in
  place when the arena has room; any other block moves to fresh storage, the first
  \<open>min old n\<close> bytes are copied and the old block is released (without a call of
  \<open>free\<close>).
\<close>

definition heap_realloc :: "addr \<Rightarrow> nat \<Rightarrow> heap \<Rightarrow> (addr \<times> heap) option" where
  "heap_realloc p n h =
     (if p = 0 then heap_malloc n h
      else case blocks h p of
        None \<Rightarrow> None
      | Some old \<Rightarrow>
          if p + max old 1 = Suc (brk h) \<and> old \<le> n \<and> p + max n 1 \<le> Suc (limit h)
          then Some (p, h\<lparr>blocks := (blocks h)(p \<mapsto> n), brk := p + max n 1 - 1\<rparr>)
          else (case heap_malloc n h of
                  None \<Rightarrow> None
                | Some (q, h') \<Rightarrow>
                    Some (q, h'\<lparr>mem := write_bytes (mem h') q (read_bytes (mem h) p (min old n)),
                                blocks := (blocks h')(p := None)\<rparr>)))"

section \<open>The view underneath: memlink\<close>

text \<open>
  Modelled from the spec: memlink.h is absent. The spec's ByteView is a pointer and a
  length offering begin, size and swap; \<open>cmemlink\<close> is the read-only view and
  \<open>memlink\<close> the writable one, with the same two fields.
\<close>

record cmemlink =
  m_Data :: addr
  m_Size :: nat

type_synonym memlink = cmemlink


text \<open>Modelled from the spec: \<open>memlink::unlink\<close>, clearing pointer and length.\<close>

definition memlink_unlink :: "'a cmemlink_scheme \<Rightarrow> 'a cmemlink_scheme" where
  "memlink_unlink l = l\<lparr>m_Data := 0, m_Size := 0\<rparr>"

text \<open>Modelled from the spec: \<open>memlink::resize\<close>, which only sets the length.\<close>

definition memlink_resize :: "nat \<Rightarrow> 'a cmemlink_scheme \<Rightarrow> 'a cmemlink_scheme" where
  "memlink_resize n l = l\<lparr>m_Size := n\<rparr>"

text \<open>Modelled from the spec: \<open>memlink::swap\<close>, exchanging pointer and length.\<close>

definition memlink_swap ::
  "'a cmemlink_scheme \<Rightarrow> 'b cmemlink_scheme \<Rightarrow> 'a cmemlink_scheme \<times> 'b cmemlink_scheme" where
  "memlink_swap a b =
     (a\<lparr>m_Data := m_Data b, m_Size := m_Size b\<rparr>, b\<lparr>m_Data := m_Data a, m_Size := m_Size a\<rparr>)"

section \<open>memblock\<close>

record memblock = cmemlink +
  m_AllocatedSize :: nat

datatype error = AllocationError | ContractViolation

definition c_PageSize :: nat where
  "c_PageSize = 64"

text \<open>\<open>memblock (void)\<close>\<close>

definition memblock_empty :: memblock where
  "memblock_empty = \<lparr>m_Data = 0, m_Size = 0, m_AllocatedSize = 0\<rparr>"

text \<open>\<open>memblock (void* p, size_t n)\<close> and \<open>memblock (const void* p, size_t n)\<close>\<close>

definition memblock_link :: "addr \<Rightarrow> nat \<Rightarrow> memblock" where
  "memblock_link p n = \<lparr>m_Data = p, m_Size = n, m_AllocatedSize = 0\<rparr>"

text \<open>\<open>memblock (const cmemlink& b)\<close>: the base is copy-constructed from \<open>b\<close>.\<close>

definition memblock_of_cmemlink :: "'a cmemlink_scheme \<Rightarrow> memblock" where
  "memblock_of_cmemlink b = \<lparr>m_Data = m_Data b, m_Size = m_Size b, m_AllocatedSize = 0\<rparr>"

text \<open>\<open>memblock (const memlink& b)\<close>\<close>

definition memblock_of_memlink :: "'a cmemlink_scheme \<Rightarrow> memblock" where
  "memblock_of_memlink b = \<lparr>m_Data = m_Data b, m_Size = m_Size b, m_AllocatedSize = 0\<rparr>"

definition capacity :: "memblock \<Rightarrow> nat" where
  "capacity mb = m_AllocatedSize mb"

definition is_linked :: "memblock \<Rightarrow> bool" where
  "is_linked mb = (m_AllocatedSize mb = 0 \<and> m_Data mb \<noteq> 0)"

definition unlink :: "memblock \<Rightarrow> memblock" where
  "unlink mb = (memlink_unlink mb)\<lparr>m_AllocatedSize := 0\<rparr>"

definition swap :: "memblock \<Rightarrow> memblock \<Rightarrow> memblock \<times> memblock" where
  "swap a l =
     (case memlink_swap a l of
        (a', l') \<Rightarrow> (a'\<lparr>m_AllocatedSize := m_AllocatedSize l'\<rparr>,
                     l'\<lparr>m_AllocatedSize := m_AllocatedSize a'\<rparr>))"

text \<open>
  Modelled from the spec: \<open>Align\<close>, rounding \<open>n\<close> up to the next multiple of the grain.
\<close>

definition Align :: "nat \<Rightarrow> nat \<Rightarrow> nat" where
  "Align n grain = ((n + grain - 1) div grain) * grain"

text \<open>
  Modelled from the spec: the body of \<open>reserve\<close> is in memblock.cc, which is absent. A hint
  within the capacity is a no-op. Otherwise the target is the hint, rounded up to a
  multiple of \<open>c_PageSize\<close> unless \<open>bExact\<close>; owned storage is reallocated, and a buffer
  that is not owned gets a fresh allocation into which a linked buffer's bytes (up to its
  length) are copied. A failed allocation is an \<open>AllocationError\<close> and leaves buffer and
  heap as they were.
\<close>

definition reserve :: "memblock \<Rightarrow> nat \<Rightarrow> bool \<Rightarrow> heap \<Rightarrow> error + memblock \<times> heap" where
  "reserve mb newSize bExact h =
     (if newSize \<le> m_AllocatedSize mb then Inr (mb, h)
      else
        let target = (if bExact then newSize else Align newSize c_PageSize) in
        if 0 < m_AllocatedSize mb then
          (case heap_realloc (m_Data mb) target h of
             None \<Rightarrow> Inl AllocationError
           | Some (q, h') \<Rightarrow> Inr (mb\<lparr>m_Data := q, m_AllocatedSize := target\<rparr>, h'))
        else
          (case heap_malloc target h of
             None \<Rightarrow> Inl AllocationError
           | Some (q, h') \<Rightarrow>
               Inr (mb\<lparr>m_Data := q, m_AllocatedSize := target\<rparr>,
                    if is_linked mb
                    then h'\<lparr>mem := write_bytes (mem h') q
                                     (read_bytes (mem h) (m_Data mb) (min (m_Size mb) target))\<rparr>
                    else h')))"

text \<open>\<open>resize\<close>: \<open>reserve (newSize, bExact)\<close>, then \<open>memlink::resize (newSize)\<close>.\<close>

definition resize :: "memblock \<Rightarrow> nat \<Rightarrow> bool \<Rightarrow> heap \<Rightarrow> error + memblock \<times> heap" where
  "resize mb newSize bExact h =
     (case reserve mb newSize bExact h of
        Inl e \<Rightarrow> Inl e
      | Inr (mb', h') \<Rightarrow> Inr (memlink_resize newSize mb', h'))"

text \<open>\<open>clear\<close>: \<open>resize (0)\<close>, with the declared default \<open>bExact = true\<close>.\<close>

definition clear :: "memblock \<Rightarrow> heap \<Rightarrow> error + memblock \<times> heap" where
  "clear mb h = resize mb 0 True h"

text \<open>
  Modelled from the spec: the body of \<open>deallocate\<close> is in memblock.cc, which is absent. An
  owned buffer frees its storage; in every case the buffer is unlinked.
\<close>

definition deallocate :: "memblock \<Rightarrow> heap \<Rightarrow> memblock \<times> heap" where
  "deallocate mb h =
     (unlink mb, if 0 < m_AllocatedSize mb then heap_free (m_Data mb) h else h)"

text \<open>\<open>~memblock\<close>\<close>

definition destroy :: "memblock \<Rightarrow> heap \<Rightarrow> memblock \<times> heap" where
  "destroy mb h = (if \<not> is_linked mb then deallocate mb h else (mb, h))"



text \<open>
  Modelled from the spec: the body of \<open>memblock (const memblock& b)\<close> is in memblock.cc,
  which is absent. The copy starts empty, is sized to the source (which allocates) and
  receives the source's bytes.
\<close>

definition memblock_copy :: "memblock \<Rightarrow> heap \<Rightarrow> error + memblock \<times> heap" where
  "memblock_copy b h =
     (case resize memblock_empty (m_Size b) True h of
        Inl e \<Rightarrow> Inl e
      | Inr (mb', h') \<Rightarrow>
          Inr (mb', h'\<lparr>mem := write_bytes (mem h') (m_Data mb')
                                (read_bytes (mem h') (m_Data b) (m_Size b))\<rparr>))"

text \<open>
  Modelled from the spec: the body of \<open>insert\<close> is in memblock.cc, which is absent. The
  iterator \<open>start\<close> is given as its offset from \<open>begin()\<close>. The length grows by \<open>n\<close>
  through resize, then the bytes from \<open>start\<close> to the old end move up by \<open>n\<close> (the
  source range is read before the destination is written, as an overlap-safe move
  does). The result carries the address of the gap. A position past the end is a
  contract violation.
\<close>

definition insert_mb ::
  "memblock \<Rightarrow> nat \<Rightarrow> nat \<Rightarrow> heap \<Rightarrow> error + addr \<times> memblock \<times> heap" where
  "insert_mb mb start n h =
     (if m_Size mb < start then Inl ContractViolation
      else case resize mb (m_Size mb + n) True h of
        Inl e \<Rightarrow> Inl e
      | Inr (mb', h') \<Rightarrow>
          Inr (m_Data mb' + start, mb',
               h'\<lparr>mem := write_bytes (mem h') (m_Data mb' + start + n)
                            (read_bytes (mem h') (m_Data mb' + start) (m_Size mb - start))\<rparr>))"

text \<open>
  Modelled from the spec: the body of \<open>erase\<close> is in memblock.cc, which is absent. The
  tail from \<open>start + n\<close> to the end moves down by \<open>n\<close>, then the length shrinks by
  \<open>n\<close>; the capacity stays. A range reaching past the end is a contract violation.
\<close>

definition erase ::
  "memblock \<Rightarrow> nat \<Rightarrow> nat \<Rightarrow> heap \<Rightarrow> error + addr \<times> memblock \<times> heap" where
  "erase mb start n h =
     (if m_Size mb < start + n then Inl ContractViolation
      else Inr (m_Data mb + start, memlink_resize (m_Size mb - n) mb,
                h\<lparr>mem := write_bytes (mem h) (m_Data mb + start)
                            (read_bytes (mem h) (m_Data mb + start + n)
                               (m_Size mb - (start + n)))\<rparr>))"

text \<open>
  A sequence of reserve and resize calls. A call that fails leaves the buffer and the
  heap as they were, and the sequence goes on; \<open>run\<close> lists the state after each call.
\<close>

datatype request = Reserve nat bool | Resize nat bool

fun apply_request :: "request \<Rightarrow> memblock \<times> heap \<Rightarrow> error + memblock \<times> heap" where
  "apply_request (Reserve n e) (mb, h) = reserve mb n e h"
| "apply_request (Resize n e) (mb, h) = resize mb n e h"

fun run :: "request list \<Rightarrow> memblock \<times> heap \<Rightarrow> (memblock \<times> heap) list" where
  "run [] s = []"
| "run (r # rs) s =
     (case apply_request r s of
        Inl e \<Rightarrow> s # run rs s
      | Inr s' \<Rightarrow> s' # run rs s')"

text \<open>The bytes a view shows: \<open>m_Size\<close> bytes from \<open>m_Data\<close>.\<close>

definition contents :: "'a cmemlink_scheme \<Rightarrow> heap \<Rightarrow> byte list" where
  "contents l h = read_bytes (mem h) (m_Data l) (m_Size l)"

text \<open>
  The spec's invariants I2 and I3, and the tie between an owned buffer and the allocator:
  owned storage is a live allocation of the recorded capacity.
\<close>

definition wf :: "memblock \<Rightarrow> heap \<Rightarrow> bool" where
  "wf mb h =
     ((m_Data mb = 0 \<longrightarrow> m_Size mb = 0 \<and> m_AllocatedSize mb = 0) \<and>
      (0 < m_AllocatedSize mb \<longrightarrow>
         m_Size mb \<le> m_AllocatedSize mb \<and> blocks h (m_Data mb) = Some (m_AllocatedSize mb)))"

text \<open>A heap for the examples: nothing allocated, addresses up to 99 in use, memory
  holding the low byte of each address.\<close>

definition heap0 :: heap where
  "heap0 = \<lparr>mem = (\<lambda>a. of_nat a), blocks = Map.empty, brk = 99, limit = 4096, freed = []\<rparr>"

text \<open>The same heap after a caller allocated four bytes at address 100.\<close>

definition heap1 :: heap where
  "heap1 = \<lparr>mem = (\<lambda>a. of_nat a), blocks = [100 \<mapsto> 4], brk = 103, limit = 4096, freed = []\<rparr>"

text \<open>A buffer owning that block, and a view of five bytes at address 50.\<close>

definition owned4 :: memblock where
  "owned4 = \<lparr>m_Data = 100, m_Size = 4, m_AllocatedSize = 4\<rparr>"

definition view50 :: cmemlink where
  "view50 = \<lparr>m_Data = 50, m_Size = 5\<rparr>"

section \<open>Auxiliary facts\<close>

lemma Align_ge: "0 < g \<Longrightarrow> n \<le> Align n g"
proof -
  assume g: "0 < g"
  have "n + g - 1 < ((n + g - 1) div g) * g + g"
    using g by (metis add.commute div_mult_mod_eq add_less_cancel_left mod_less_divisor mult.commute)
  then show ?thesis using g unfolding Align_def by linarith
qed

lemma Align_lt: "0 < g \<Longrightarrow> Align n g < n + g"
proof -
  assume g: "0 < g"
  have "((n + g - 1) div g) * g \<le> n + g - 1" by simp
  then show ?thesis using g unfolding Align_def by linarith
qed

lemma Align_dvd: "g dvd Align n g"
  by (simp add: Align_def)

lemma length_read_bytes [simp]: "length (read_bytes m p n) = n"
  by (simp add: read_bytes_def)

lemma nth_read_bytes [simp]: "i < n \<Longrightarrow> read_bytes m p n ! i = m (p + i)"
  by (simp add: read_bytes_def)

lemma write_bytes_inside: "i < length bs \<Longrightarrow> write_bytes m p bs (p + i) = bs ! i"
  by (simp add: write_bytes_def)

lemma write_bytes_outside: "a < p \<or> p + length bs \<le> a \<Longrightarrow> write_bytes m p bs a = m a"
  by (auto simp: write_bytes_def)

lemma heap_malloc_Some:
  "heap_malloc n h = Some (q, h') \<Longrightarrow>
     q = Suc (brk h) \<and> mem h' = mem h \<and> freed h' = freed h \<and> blocks h' = (blocks h)(q \<mapsto> n)"
  by (auto simp: heap_malloc_def split: if_splits)

lemma heap_realloc_freed:
  "heap_realloc p n h = Some (q, h') \<Longrightarrow> freed h' = freed h"
  by (auto simp: heap_realloc_def dest!: heap_malloc_Some split: if_splits option.splits)

lemma heap_realloc_keeps:
  "heap_realloc p n h = Some (q, h') \<Longrightarrow> p \<noteq> 0 \<Longrightarrow> blocks h p = Some old \<Longrightarrow>
     i < old \<Longrightarrow> i < n \<Longrightarrow> mem h' (q + i) = mem h (p + i)"
  by (auto simp: heap_realloc_def write_bytes_def dest!: heap_malloc_Some split: if_splits option.splits)

lemma heap_realloc_untouched:
  "heap_realloc p n h = Some (q, h') \<Longrightarrow>
     mem h' (q + i) = mem h (q + i) \<or> mem h' (q + i) = mem h (p + i)"
  by (auto simp: heap_realloc_def write_bytes_def dest!: heap_malloc_Some split: if_splits option.splits)

lemma reserve_noop: "n \<le> m_AllocatedSize mb \<Longrightarrow> reserve mb n e h = Inr (mb, h)"
  by (simp add: reserve_def)

lemma reserve_size:
  "reserve mb n e h = Inr (mb', h') \<Longrightarrow> m_Size mb' = m_Size mb"
  by (auto simp: reserve_def Let_def split: if_splits option.splits)

lemma reserve_capacity:
  "reserve mb n e h = Inr (mb', h') \<Longrightarrow> m_AllocatedSize mb < n \<Longrightarrow>
     m_AllocatedSize mb' = (if e then n else Align n c_PageSize)"
  by (auto simp: reserve_def Let_def split: if_splits option.splits)

lemma reserve_mono:
  "reserve mb n e h = Inr (mb', h') \<Longrightarrow> m_AllocatedSize mb \<le> m_AllocatedSize mb'"
proof (cases "n \<le> m_AllocatedSize mb")
  case True
  assume "reserve mb n e h = Inr (mb', h')"
  with True show ?thesis by (simp add: reserve_def)
next
  case False
  assume r: "reserve mb n e h = Inr (mb', h')"
  from False have lt: "m_AllocatedSize mb < n" by simp
  have "n \<le> (if e then n else Align n c_PageSize)"
    using Align_ge [of c_PageSize n] by (simp add: c_PageSize_def)
  with reserve_capacity [OF r lt] lt show ?thesis by simp
qed

lemma reserve_freed:
  "reserve mb n e h = Inr (mb', h') \<Longrightarrow> freed h' = freed h"
  by (auto simp: reserve_def Let_def dest!: heap_malloc_Some heap_realloc_freed split: if_splits option.splits)

lemma reserve_keeps:
  assumes "wf mb h" and "reserve mb n e h = Inr (mb', h')" and "i < m_Size mb" and "i < n"
  shows "mem h' (m_Data mb' + i) = mem h (m_Data mb + i)"
proof (cases "n \<le> m_AllocatedSize mb")
  case True
  with assms(2) show ?thesis by (simp add: reserve_def)
next
  case False
  define t where "t = (if e then n else Align n c_PageSize)"
  have nt: "n \<le> t"
    using Align_ge [of c_PageSize n] by (simp add: t_def c_PageSize_def)
  show ?thesis
  proof (cases "0 < m_AllocatedSize mb")
    case True
    with assms(1) have blk: "blocks h (m_Data mb) = Some (m_AllocatedSize mb)"
      and sz: "m_Size mb \<le> m_AllocatedSize mb" and nz: "m_Data mb \<noteq> 0"
      by (auto simp: wf_def)
    from assms(2) False True obtain q where
      re: "heap_realloc (m_Data mb) t h = Some (q, h')" and q: "m_Data mb' = q"
      by (auto simp: reserve_def Let_def t_def split: option.splits)
    from heap_realloc_keeps [OF re nz blk, of i] assms(3,4) sz nt q
    show ?thesis by simp
  next
    case owned: False
    show ?thesis
    proof (cases "m_Data mb = 0")
      case True
      with assms(1,3) show ?thesis by (simp add: wf_def)
    next
      case nz: False
      with owned have lk: "is_linked mb" by (simp add: is_linked_def)
      from assms(2) False owned lk obtain q h1 where
        ma: "heap_malloc t h = Some (q, h1)" and q: "m_Data mb' = q"
        and h': "h' = h1\<lparr>mem := write_bytes (mem h1) q
                          (read_bytes (mem h) (m_Data mb) (min (m_Size mb) t))\<rparr>"
        by (auto simp: reserve_def Let_def t_def split: option.splits)
      from assms(3,4) nt have "i < min (m_Size mb) t" by simp
      then show ?thesis using q h' by (simp add: write_bytes_inside)
    qed
  qed
qed

lemma reserve_untouched:
  assumes "reserve mb n e h = Inr (mb', h')" and "m_Size mb \<le> i"
  shows "mem h' (m_Data mb' + i) = mem h (m_Data mb' + i) \<or>
         mem h' (m_Data mb' + i) = mem h (m_Data mb + i)"
proof (cases "n \<le> m_AllocatedSize mb")
  case True
  with assms(1) show ?thesis by (simp add: reserve_def)
next
  case False
  define t where "t = (if e then n else Align n c_PageSize)"
  show ?thesis
  proof (cases "0 < m_AllocatedSize mb")
    case True
    from assms(1) False True obtain q where
      re: "heap_realloc (m_Data mb) t h = Some (q, h')" and q: "m_Data mb' = q"
      by (auto simp: reserve_def Let_def t_def split: option.splits)
    from heap_realloc_untouched [OF re, of i] q show ?thesis by simp
  next
    case owned: False
    from assms(1) False owned obtain q h1 where
      ma: "heap_malloc t h = Some (q, h1)" and q: "m_Data mb' = q"
      and h': "mem h' = mem h1 \<or> mem h' = write_bytes (mem h1) q
                        (read_bytes (mem h) (m_Data mb) (min (m_Size mb) t))"
      by (auto simp: reserve_def Let_def t_def split: option.splits if_splits)
    from heap_malloc_Some [OF ma] have "mem h1 = mem h" by simp
    with h' q assms(2) show ?thesis
      by (auto simp: write_bytes_outside)
  qed
qed

lemma resize_Inr:
  "resize mb n e h = Inr (mb', h') \<Longrightarrow>
     \<exists>mb1. reserve mb n e h = Inr (mb1, h') \<and> mb' = mb1\<lparr>m_Size := n\<rparr>"
  by (auto simp: resize_def memlink_resize_def split: sum.splits)

lemma contents_nth: "i < m_Size l \<Longrightarrow> contents l h ! i = mem h (m_Data l + i)"
  by (simp add: contents_def)

lemma length_contents: "length (contents l h) = m_Size l"
  by (simp add: contents_def)

lemma take_read_bytes: "take k (read_bytes m p n) = read_bytes m p (min k n)"
  by (rule nth_equalityI) simp_all

lemma read_bytes_cong:
  "(\<And>i. i < n \<Longrightarrow> m (p + i) = m' (p' + i)) \<Longrightarrow> read_bytes m p n = read_bytes m' p' n"
  by (rule nth_equalityI) simp_all

lemma read_write_same: "read_bytes (write_bytes m p bs) p (length bs) = bs"
  by (rule nth_equalityI) (simp_all add: write_bytes_inside)

lemma apply_request_mono:
  "apply_request r s = Inr s' \<Longrightarrow> capacity (fst s) \<le> capacity (fst s')"
proof (cases r)
  case (Reserve n e)
  assume "apply_request r s = Inr s'"
  with Reserve show ?thesis
    by (cases s, cases s') (auto simp: capacity_def dest: reserve_mono)
next
  case (Resize n e)
  assume "apply_request r s = Inr s'"
  with Resize show ?thesis
    by (cases s, cases s') (auto simp: capacity_def dest!: resize_Inr dest: reserve_mono)
qed

lemma run_sorted: "sorted (map (capacity \<circ> fst) (s # run rs s))"
proof (induction rs arbitrary: s)
  case Nil
  show ?case by simp
next
  case (Cons r rs)
  show ?case
  proof (cases "apply_request r s")
    case (Inl e)
    with Cons.IH [of s] show ?thesis by simp
  next
    case (Inr s')
    with Cons.IH [of s'] apply_request_mono [OF Inr] show ?thesis by auto
  qed
qed

lemma insert_mb_Inr:
  assumes "insert_mb mb p k h = Inr (it, mb1, h1)"
  shows "\<exists>mb0 h0. reserve mb (m_Size mb + k) True h = Inr (mb0, h0) \<and>
           p \<le> m_Size mb \<and> mb1 = mb0\<lparr>m_Size := m_Size mb + k\<rparr> \<and> it = m_Data mb0 + p \<and>
           h1 = h0\<lparr>mem := write_bytes (mem h0) (m_Data mb0 + p + k)
                              (read_bytes (mem h0) (m_Data mb0 + p) (m_Size mb - p))\<rparr>"
  using assms
  by (auto simp: insert_mb_def resize_def memlink_resize_def split: if_splits sum.splits)

lemma insert_mb_before:
  assumes w: "wf mb h" and ins: "insert_mb mb p k h = Inr (it, mb1, h1)" and i: "i < p"
  shows "mem h1 (m_Data mb1 + i) = mem h (m_Data mb + i)"
proof -
  from insert_mb_Inr [OF ins] obtain mb0 h0 where
    re: "reserve mb (m_Size mb + k) True h = Inr (mb0, h0)" and p: "p \<le> m_Size mb"
    and mb1: "mb1 = mb0\<lparr>m_Size := m_Size mb + k\<rparr>"
    and h1: "h1 = h0\<lparr>mem := write_bytes (mem h0) (m_Data mb0 + p + k)
                              (read_bytes (mem h0) (m_Data mb0 + p) (m_Size mb - p))\<rparr>"
    by blast
  have "mem h1 (m_Data mb1 + i) = mem h0 (m_Data mb0 + i)"
    using i by (simp add: h1 mb1 write_bytes_outside)
  also have "\<dots> = mem h (m_Data mb + i)"
    using reserve_keeps [OF w re, of i] i p by simp
  finally show ?thesis .
qed

lemma insert_mb_after:
  assumes w: "wf mb h" and ins: "insert_mb mb p k h = Inr (it, mb1, h1)"
    and j: "j < m_Size mb - p"
  shows "mem h1 (m_Data mb1 + p + k + j) = mem h (m_Data mb + p + j)"
proof -
  from insert_mb_Inr [OF ins] obtain mb0 h0 where
    re: "reserve mb (m_Size mb + k) True h = Inr (mb0, h0)" and p: "p \<le> m_Size mb"
    and mb1: "mb1 = mb0\<lparr>m_Size := m_Size mb + k\<rparr>"
    and h1: "h1 = h0\<lparr>mem := write_bytes (mem h0) (m_Data mb0 + p + k)
                              (read_bytes (mem h0) (m_Data mb0 + p) (m_Size mb - p))\<rparr>"
    by blast
  have "mem h1 (m_Data mb1 + p + k + j) = mem h0 (m_Data mb0 + p + j)"
    using j write_bytes_inside [of j "read_bytes (mem h0) (m_Data mb0 + p) (m_Size mb - p)"
        "mem h0" "m_Data mb0 + p + k"]
    by (simp add: h1 mb1)
  also have "\<dots> = mem h (m_Data mb + p + j)"
    using reserve_keeps [OF w re, of "p + j"] j p by (simp add: add.assoc)
  finally show ?thesis .
qed


lemma destroy_eq:
  "destroy mb h =
     (if is_linked mb then (mb, h)
      else (memblock_empty, if 0 < m_AllocatedSize mb then heap_free (m_Data mb) h else h))"
  by (simp add: destroy_def deallocate_def unlink_def memlink_unlink_def memblock_empty_def)


lemma reserve_empty:
  "0 < n \<Longrightarrow> reserve memblock_empty n True h =
     (case heap_malloc n h of
        None \<Rightarrow> Inl AllocationError
      | Some (q, h1) \<Rightarrow> Inr (\<lparr>m_Data = q, m_Size = 0, m_AllocatedSize = n\<rparr>, h1))"
  unfolding reserve_def memblock_empty_def is_linked_def
  by (cases "heap_malloc n h") auto

lemma resize_empty:
  "0 < n \<Longrightarrow> resize memblock_empty n True h =
     (case heap_malloc n h of
        None \<Rightarrow> Inl AllocationError
      | Some (q, h1) \<Rightarrow> Inr (\<lparr>m_Data = q, m_Size = n, m_AllocatedSize = n\<rparr>, h1))"
  unfolding resize_def
  by (cases "heap_malloc n h") (auto simp: reserve_empty memlink_resize_def)

lemma memblock_copy_Inr:
  assumes "memblock_copy c h = Inr (mb', h')" and "0 < m_Size c" and "m_Data c \<le> brk h"
  shows "0 < m_AllocatedSize mb' \<and> m_Data mb' \<noteq> m_Data c \<and> m_Size mb' = m_Size c \<and>
         contents mb' h' = contents c h \<and> freed h' = freed h"
proof -
  from assms(1) obtain q h1 where
    ma: "heap_malloc (m_Size c) h = Some (q, h1)"
    and mbq: "mb' = \<lparr>m_Data = q, m_Size = m_Size c, m_AllocatedSize = m_Size c\<rparr>"
    and h': "h' = h1\<lparr>mem := write_bytes (mem h1) q (read_bytes (mem h1) (m_Data c) (m_Size c))\<rparr>"
    unfolding memblock_copy_def resize_empty [OF assms(2)]
    by (cases "heap_malloc (m_Size c) h") auto
  from heap_malloc_Some [OF ma] have q: "q = Suc (brk h)" and m: "mem h1 = mem h"
    and f: "freed h1 = freed h"
    by simp_all
  have "contents mb' h' = contents c h"
    using read_write_same [of "mem h" q "read_bytes (mem h) (m_Data c) (m_Size c)"]
    by (simp add: contents_def h' mbq m)
  with q mbq assms(2,3) f h' show ?thesis by simp
qed

lemma heap_malloc_heap0: "n \<le> 3000 \<Longrightarrow> \<exists>h1. heap_malloc n heap0 = Some (100, h1)"
  by (simp add: heap_malloc_def heap0_def)

lemma reserve_unowned_succeeds:
  "m_AllocatedSize mb = 0 \<Longrightarrow> 0 < n \<Longrightarrow> brk h + n \<le> limit h \<Longrightarrow>
     \<exists>mb' h'. reserve mb n True h = Inr (mb', h') \<and> m_Data mb' = Suc (brk h)"
  by (simp add: reserve_def heap_malloc_def Let_def)

lemma resize_succeeds:
  "reserve mb n e h = Inr (mb1, h1) \<Longrightarrow> resize mb n e h = Inr (mb1\<lparr>m_Size := n\<rparr>, h1)"
  by (simp add: resize_def memlink_resize_def)

lemma insert_mb_succeeds:
  "p \<le> m_Size mb \<Longrightarrow> resize mb (m_Size mb + k) True h = Inr (mb', h') \<Longrightarrow>
     \<exists>it mb1 h1. insert_mb mb p k h = Inr (it, mb1, h1)"
  by (simp add: insert_mb_def)

lemma link50: "m_Data (memblock_link 50 5) = 50" "m_Size (memblock_link 50 5) = 5"
  "m_AllocatedSize (memblock_link 50 5) = 0" "wf (memblock_link 50 5) h"
  "is_linked (memblock_link 50 5)"
  by (simp_all add: memblock_link_def wf_def is_linked_def)

lemma heap0_simps: "brk heap0 = 99" "limit heap0 = 4096" "freed heap0 = []" "mem heap0 a = of_nat a"
  by (simp_all add: heap0_def)

lemma heap1_simps: "brk heap1 = 103" "limit heap1 = 4096" "freed heap1 = []"
  "blocks heap1 100 = Some 4"
  by (simp_all add: heap1_def)

lemma owned4_simps: "m_Data owned4 = 100" "m_Size owned4 = 4" "m_AllocatedSize owned4 = 4"
  "wf owned4 heap1"
  by (simp_all add: owned4_def wf_def heap1_def)

section \<open>The claims\<close>



text \<open>
  C2: constructing a buffer from a cmemlink or memlink view links it to the view's
  storage: same pointer, same length, allocated size 0, and the same bytes by aliasing.
  The copy constructor from another memblock is the one that, for a non-empty source
  lying in memory already in use, gets fresh owned storage at a different address
  holding the source's bytes.
\<close>

theorem view_constructors_link:
  "memblock_of_cmemlink b = \<lparr>m_Data = m_Data b, m_Size = m_Size b, m_AllocatedSize = 0\<rparr> \<and>
   memblock_of_memlink b = \<lparr>m_Data = m_Data b, m_Size = m_Size b, m_AllocatedSize = 0\<rparr> \<and>
   is_linked (memblock_of_cmemlink b) = (m_Data b \<noteq> 0) \<and>
   is_linked (memblock_of_memlink b) = (m_Data b \<noteq> 0) \<and>
   contents (memblock_of_cmemlink b) h = contents b h \<and>
   contents (memblock_of_memlink b) h = contents b h \<and>
   (\<forall>mb' h'. memblock_copy c h = Inr (mb', h') \<and> 0 < m_Size c \<and> m_Data c \<le> brk h \<longrightarrow>
      0 < m_AllocatedSize mb' \<and> m_Data mb' \<noteq> m_Data c \<and> m_Size mb' = m_Size c \<and>
      contents mb' h' = contents c h)"
proof (intro conjI allI impI)
  fix mb' h'
  assume a: "memblock_copy c h = Inr (mb', h') \<and> 0 < m_Size c \<and> m_Data c \<le> brk h"
  then show "0 < m_AllocatedSize mb'" and "m_Data mb' \<noteq> m_Data c"
    and "m_Size mb' = m_Size c" and "contents mb' h' = contents c h"
    using memblock_copy_Inr [of c h mb' h'] by simp_all
qed (simp_all add: memblock_of_cmemlink_def memblock_of_memlink_def contents_def is_linked_def)

text \<open>
  The claim as stated (fresh owned storage, distinct pointer) fails for the two view
  constructors on the five-byte view at address 50.
\<close>

theorem copy_of_view_counterexample:
  "0 < m_Size view50 \<and>
   \<not> 0 < m_AllocatedSize (memblock_of_memlink view50) \<and>
   \<not> m_Data (memblock_of_memlink view50) \<noteq> m_Data view50 \<and>
   \<not> 0 < m_AllocatedSize (memblock_of_cmemlink view50) \<and>
   \<not> m_Data (memblock_of_cmemlink view50) \<noteq> m_Data view50"
  by (simp add: memblock_of_memlink_def memblock_of_cmemlink_def view50_def)

theorem view_constructors_link_witness:
  "0 < m_Size (memblock_link 50 5) \<and> m_Data (memblock_link 50 5) \<le> brk heap0 \<and>
   (\<exists>mb' h'. memblock_copy (memblock_link 50 5) heap0 = Inr (mb', h') \<and>
      0 < m_AllocatedSize mb' \<and> m_Data mb' \<noteq> 50 \<and> m_Size mb' = 5 \<and>
      contents mb' h' = contents (memblock_link 50 5) heap0) \<and>
   m_AllocatedSize (memblock_of_memlink view50) = 0 \<and>
   m_Data (memblock_of_memlink view50) = 50"
proof -
  have sz: "m_Size (memblock_link 50 5) = 5" and d: "m_Data (memblock_link 50 5) = 50"
    by (simp_all add: memblock_link_def)
  have b: "brk heap0 = 99" by (simp add: heap0_def)
  from heap_malloc_heap0 [of 5] obtain h1 where "heap_malloc 5 heap0 = Some (100, h1)"
    by auto
  then have "\<exists>mb' h'. memblock_copy (memblock_link 50 5) heap0 = Inr (mb', h')"
    by (simp add: memblock_copy_def resize_empty sz)
  then obtain mb' h' where r: "memblock_copy (memblock_link 50 5) heap0 = Inr (mb', h')"
    by blast
  from view_constructors_link [where c = "memblock_link 50 5" and h = heap0 and b = view50] r
  have "0 < m_AllocatedSize mb' \<and> m_Data mb' \<noteq> 50 \<and> m_Size mb' = 5 \<and>
      contents mb' h' = contents (memblock_link 50 5) heap0 \<and>
      m_AllocatedSize (memblock_of_memlink view50) = 0 \<and>
      m_Data (memblock_of_memlink view50) = 50"
    by (simp add: sz d b view50_def)
  with r sz d b show ?thesis by auto
qed

text \<open>
  C3: destruction calls free exactly when the buffer is owned, and then on the buffer's
  own storage, which leaves the live allocations; destroying a linked buffer changes
  neither the buffer nor the heap.
\<close>

theorem destroy_frees_iff_owned:
  "(freed (snd (destroy mb h)) \<noteq> freed h) = (0 < m_AllocatedSize mb) \<and>
   freed (snd (destroy mb h)) =
     (if 0 < m_AllocatedSize mb then m_Data mb # freed h else freed h) \<and>
   (0 < m_AllocatedSize mb \<longrightarrow> blocks (snd (destroy mb h)) (m_Data mb) = None) \<and>
   (is_linked mb \<longrightarrow> destroy mb h = (mb, h))"
  by (simp add: destroy_eq heap_free_def is_linked_def)

theorem destroy_frees_iff_owned_witness:
  "is_linked (memblock_link 50 5) \<and>
   destroy (memblock_link 50 5) heap0 = (memblock_link 50 5, heap0) \<and>
   0 < m_AllocatedSize owned4 \<and>
   freed (snd (destroy owned4 heap1)) = [100] \<and>
   blocks (snd (destroy owned4 heap1)) 100 = None"
  using destroy_frees_iff_owned [of "memblock_link 50 5" heap0]
    destroy_frees_iff_owned [of owned4 heap1]
  by (simp add: link50 owned4_simps heap1_simps)

text \<open>
  C4: resize is reserve followed by setting the length. When it succeeds the length is
  the new size, the first min (old length, new size) bytes of a well-formed buffer are
  unchanged, and every newly exposed byte is a byte that memory already held before the
  call (at its own address, or past the old length in the old storage): nothing writes
  it, in particular no zero.
\<close>

theorem resize_is_reserve_then_length:
  "resize mb n e h =
     (case reserve mb n e h of
        Inl err \<Rightarrow> Inl err
      | Inr (mb1, h1) \<Rightarrow> Inr (mb1\<lparr>m_Size := n\<rparr>, h1)) \<and>
   (\<forall>mb' h'. resize mb n e h = Inr (mb', h') \<longrightarrow>
      m_Size mb' = n \<and>
      (wf mb h \<longrightarrow>
         take (min (m_Size mb) n) (contents mb' h') = take (min (m_Size mb) n) (contents mb h)) \<and>
      (\<forall>i. m_Size mb \<le> i \<and> i < n \<longrightarrow>
         contents mb' h' ! i = mem h (m_Data mb' + i) \<or>
         contents mb' h' ! i = mem h (m_Data mb + i)))"
proof (intro conjI allI impI)
  show "resize mb n e h =
     (case reserve mb n e h of
        Inl err \<Rightarrow> Inl err
      | Inr (mb1, h1) \<Rightarrow> Inr (mb1\<lparr>m_Size := n\<rparr>, h1))"
    by (simp add: resize_def memlink_resize_def split: sum.splits)
next
  fix mb' h'
  assume "resize mb n e h = Inr (mb', h')"
  then show "m_Size mb' = n" by (auto dest: resize_Inr)
next
  fix mb' h'
  assume r: "resize mb n e h = Inr (mb', h')" and w: "wf mb h"
  from resize_Inr [OF r] obtain mb1 where
    re: "reserve mb n e h = Inr (mb1, h')" and mb': "mb' = mb1\<lparr>m_Size := n\<rparr>" by blast
  have "read_bytes (mem h') (m_Data mb1) (min (m_Size mb) n) =
        read_bytes (mem h) (m_Data mb) (min (m_Size mb) n)"
    by (rule read_bytes_cong) (simp add: reserve_keeps [OF w re])
  then show "take (min (m_Size mb) n) (contents mb' h') =
             take (min (m_Size mb) n) (contents mb h)"
    by (simp add: contents_def take_read_bytes mb')
next
  fix mb' h' i
  assume r: "resize mb n e h = Inr (mb', h')" and i: "m_Size mb \<le> i \<and> i < n"
  from resize_Inr [OF r] obtain mb1 where
    re: "reserve mb n e h = Inr (mb1, h')" and mb': "mb' = mb1\<lparr>m_Size := n\<rparr>" by blast
  from reserve_untouched [OF re, of i] i mb'
  show "contents mb' h' ! i = mem h (m_Data mb' + i) \<or>
        contents mb' h' ! i = mem h (m_Data mb + i)"
    by (simp add: contents_def)
qed

theorem resize_is_reserve_then_length_witness:
  "wf (memblock_link 50 5) heap0 \<and>
   (\<exists>mb' h'. resize (memblock_link 50 5) 10 True heap0 = Inr (mb', h') \<and>
      m_Size mb' = 10 \<and>
      take 5 (contents mb' h') = take 5 (contents (memblock_link 50 5) heap0) \<and>
      contents mb' h' ! 7 \<noteq> 0)"
proof -
  from reserve_unowned_succeeds [where mb = "memblock_link 50 5" and h = heap0 and n = 10]
  obtain mb1 h1 where re: "reserve (memblock_link 50 5) 10 True heap0 = Inr (mb1, h1)"
    and d: "m_Data mb1 = 100"
    by (auto simp: link50 heap0_simps)
  from resize_succeeds [OF re]
  have r: "resize (memblock_link 50 5) 10 True heap0 = Inr (mb1\<lparr>m_Size := 10\<rparr>, h1)" .
  let ?mb = "mb1\<lparr>m_Size := 10\<rparr>"
  from resize_is_reserve_then_length [of "memblock_link 50 5" 10 True heap0] r
  have sz: "m_Size ?mb = 10"
    and keep: "take 5 (contents ?mb h1) = take 5 (contents (memblock_link 50 5) heap0)"
    and new: "\<forall>i. 5 \<le> i \<and> i < 10 \<longrightarrow>
         contents ?mb h1 ! i = mem heap0 (100 + i) \<or> contents ?mb h1 ! i = mem heap0 (50 + i)"
    by (simp_all add: link50 d)
  from new have "contents ?mb h1 ! 7 = mem heap0 (100 + 7) \<or>
      contents ?mb h1 ! 7 = mem heap0 (50 + 7)"
    by (elim allE [of _ 7]) simp
  then have "contents ?mb h1 ! 7 \<noteq> 0"
    by (auto simp: heap0_simps)
  with sz keep have "m_Size ?mb = 10 \<and>
      take 5 (contents ?mb h1) = take 5 (contents (memblock_link 50 5) heap0) \<and>
      contents ?mb h1 ! 7 \<noteq> 0"
    by simp
  with r link50(4) show ?thesis by blast
qed

text \<open>
  C5: along every sequence of reserve and resize calls the allocated size never
  decreases, a successful reserve or resize never lowers it, and reserve with a hint
  within the allocated size changes neither the buffer nor the heap.
\<close>

theorem capacity_never_decreases:
  "sorted (map (capacity \<circ> fst) ((mb, h) # run rs (mb, h))) \<and>
   (\<forall>mb' h'. reserve mb n e h = Inr (mb', h') \<longrightarrow> capacity mb \<le> capacity mb') \<and>
   (\<forall>mb' h'. resize mb n e h = Inr (mb', h') \<longrightarrow> capacity mb \<le> capacity mb') \<and>
   (n \<le> capacity mb \<longrightarrow> reserve mb n e h = Inr (mb, h))"
proof (intro conjI allI impI)
  show "sorted (map (capacity \<circ> fst) ((mb, h) # run rs (mb, h)))"
    by (rule run_sorted)
next
  fix mb' h'
  assume "reserve mb n e h = Inr (mb', h')"
  then show "capacity mb \<le> capacity mb'"
    by (simp add: capacity_def reserve_mono)
next
  fix mb' h'
  assume "resize mb n e h = Inr (mb', h')"
  then show "capacity mb \<le> capacity mb'"
    by (auto simp: capacity_def dest!: resize_Inr dest: reserve_mono)
next
  assume "n \<le> capacity mb"
  then show "reserve mb n e h = Inr (mb, h)"
    by (simp add: capacity_def reserve_noop)
qed

theorem capacity_never_decreases_witness:
  "3 \<le> capacity owned4 \<and> reserve owned4 3 True heap1 = Inr (owned4, heap1) \<and>
   (\<exists>mb' h'. resize owned4 10 False heap1 = Inr (mb', h') \<and> capacity owned4 \<le> capacity mb') \<and>
   sorted (map (capacity \<circ> fst)
     ((owned4, heap1) # run [Resize 10 False, Reserve 3 True, Resize 0 True] (owned4, heap1)))"
proof -
  have "\<exists>mb1 h1. reserve owned4 10 False heap1 = Inr (mb1, h1)"
    by (simp add: reserve_def owned4_simps heap_realloc_def heap1_simps Let_def Align_def
        c_PageSize_def)
  then obtain mb1 h1 where "reserve owned4 10 False heap1 = Inr (mb1, h1)" by blast
  from resize_succeeds [OF this]
  have r: "resize owned4 10 False heap1 = Inr (mb1\<lparr>m_Size := 10\<rparr>, h1)" .
  from capacity_never_decreases [of owned4 heap1
      "[Resize 10 False, Reserve 3 True, Resize 0 True]" 10 False] r
  have a: "capacity owned4 \<le> capacity (mb1\<lparr>m_Size := 10\<rparr>)"
    and s: "sorted (map (capacity \<circ> fst)
     ((owned4, heap1) # run [Resize 10 False, Reserve 3 True, Resize 0 True] (owned4, heap1)))"
    by blast+
  have c: "3 \<le> capacity owned4" by (simp add: capacity_def owned4_simps)
  with capacity_never_decreases [of owned4 heap1 "[]" 3 True]
  have "reserve owned4 3 True heap1 = Inr (owned4, heap1)" by blast
  with a s c r show ?thesis by blast
qed

text \<open>
  C6: when reserve has to allocate and succeeds, the length is unchanged; with bExact the
  allocated size is the hint, without it the hint rounded up to the next multiple of 64
  (a multiple of 64, at least the hint and less than 64 above it).
\<close>

theorem reserve_allocation_size:
  assumes "capacity mb < newSize" and "reserve mb newSize bExact h = Inr (mb', h')"
  shows "m_Size mb' = m_Size mb \<and>
         (bExact \<longrightarrow> capacity mb' = newSize) \<and>
         (\<not> bExact \<longrightarrow> capacity mb' = Align newSize 64 \<and> 64 dvd capacity mb' \<and>
            newSize \<le> capacity mb' \<and> capacity mb' < newSize + 64)"
  using assms reserve_size [OF assms(2)] reserve_capacity [OF assms(2)]
    Align_ge [of 64 newSize] Align_lt [of 64 newSize] Align_dvd [of 64 newSize]
  by (simp add: capacity_def c_PageSize_def)

theorem reserve_allocation_size_witness:
  "capacity memblock_empty < 10 \<and>
   (\<exists>mb' h'. reserve memblock_empty 10 False heap0 = Inr (mb', h') \<and>
      m_Size mb' = 0 \<and> capacity mb' = 64) \<and>
   (\<exists>mb' h'. reserve memblock_empty 10 True heap0 = Inr (mb', h') \<and>
      m_Size mb' = 0 \<and> capacity mb' = 10)"
proof -
  have c: "capacity memblock_empty < 10" and z: "m_Size memblock_empty = 0"
    by (simp_all add: capacity_def memblock_empty_def)
  have "\<exists>mb1 h1. reserve memblock_empty 10 False heap0 = Inr (mb1, h1)"
    by (simp add: reserve_def memblock_empty_def heap_malloc_def heap0_simps Let_def Align_def
        c_PageSize_def)
  then obtain mb1 h1 where r1: "reserve memblock_empty 10 False heap0 = Inr (mb1, h1)" by blast
  have "\<exists>mb2 h2. reserve memblock_empty 10 True heap0 = Inr (mb2, h2)"
    by (simp add: reserve_def memblock_empty_def heap_malloc_def heap0_simps Let_def)
  then obtain mb2 h2 where r2: "reserve memblock_empty 10 True heap0 = Inr (mb2, h2)" by blast
  have al: "Align 10 64 = 64" by (simp add: Align_def)
  from reserve_allocation_size [OF c r1] have "m_Size mb1 = 0 \<and> capacity mb1 = 64"
    by (simp add: z al)
  moreover from reserve_allocation_size [OF c r2] have "m_Size mb2 = 0 \<and> capacity mb2 = 10"
    by (simp add: z)
  ultimately show ?thesis using c r1 r2 by blast
qed

text \<open>
  C7: after a successful insert of k bytes at position p into a well-formed buffer, the
  bytes before p and the bytes from p + k on are those of the original (the latter
  shifted by k); erasing k bytes at p then succeeds, gives back the original length and
  the original contents, and keeps the capacity.
\<close>

theorem insert_then_erase_restores:
  assumes w: "wf mb h" and ins: "insert_mb mb p k h = Inr (it, mb1, h1)"
  shows "p \<le> m_Size mb \<and> m_Size mb1 = m_Size mb + k \<and> it = m_Data mb1 + p \<and>
         (\<forall>i<p. contents mb1 h1 ! i = contents mb h ! i) \<and>
         (\<forall>i. p + k \<le> i \<and> i < m_Size mb + k \<longrightarrow>
            contents mb1 h1 ! i = contents mb h ! (i - k)) \<and>
         (\<exists>it' mb2 h2. erase mb1 p k h1 = Inr (it', mb2, h2) \<and>
            m_Size mb2 = m_Size mb \<and> contents mb2 h2 = contents mb h \<and>
            capacity mb2 = capacity mb1)"
proof -
  from insert_mb_Inr [OF ins] have p: "p \<le> m_Size mb"
    and sz: "m_Size mb1 = m_Size mb + k" and it: "it = m_Data mb1 + p"
    by auto
  have before: "contents mb1 h1 ! i = contents mb h ! i" if "i < p" for i
    using that p sz insert_mb_before [OF w ins that] by (simp add: contents_nth)
  have after: "contents mb1 h1 ! i = contents mb h ! (i - k)"
    if "p + k \<le> i \<and> i < m_Size mb + k" for i
  proof -
    define j where "j = i - (p + k)"
    from that p have i: "i = p + k + j" and j: "j < m_Size mb - p"
      unfolding j_def by linarith+
    from insert_mb_after [OF w ins j] sz that p i j show ?thesis
      by (simp add: contents_nth add.assoc)
  qed
  define mb2 where "mb2 = memlink_resize (m_Size mb1 - k) mb1"
  define h2 where "h2 = h1\<lparr>mem := write_bytes (mem h1) (m_Data mb1 + p)
                            (read_bytes (mem h1) (m_Data mb1 + p + k) (m_Size mb1 - (p + k)))\<rparr>"
  have er: "erase mb1 p k h1 = Inr (m_Data mb1 + p, mb2, h2)"
    using p sz by (simp add: erase_def mb2_def h2_def)
  have sz2: "m_Size mb2 = m_Size mb" and d2: "m_Data mb2 = m_Data mb1"
    and c2: "capacity mb2 = capacity mb1"
    by (simp_all add: mb2_def memlink_resize_def sz capacity_def)
  have "contents mb2 h2 = contents mb h"
  proof (rule nth_equalityI)
    show "length (contents mb2 h2) = length (contents mb h)"
      by (simp add: length_contents sz2)
  next
    fix i assume "i < length (contents mb2 h2)"
    then have i: "i < m_Size mb" by (simp add: length_contents sz2)
    show "contents mb2 h2 ! i = contents mb h ! i"
    proof (cases "i < p")
      case True
      then have "mem h2 (m_Data mb1 + i) = mem h1 (m_Data mb1 + i)"
        by (simp add: h2_def write_bytes_outside)
      with insert_mb_before [OF w ins True] i show ?thesis
        by (simp add: contents_nth sz2 d2)
    next
      case False
      define j where "j = i - p"
      from False i have ij: "i = p + j" and j: "j < m_Size mb - p"
        by (simp_all add: j_def)
      have "mem h2 (m_Data mb1 + p + j) = mem h1 (m_Data mb1 + p + k + j)"
        using j sz write_bytes_inside [of j
            "read_bytes (mem h1) (m_Data mb1 + p + k) (m_Size mb1 - (p + k))" "mem h1"
            "m_Data mb1 + p"]
        by (simp add: h2_def)
      with insert_mb_after [OF w ins j] i ij show ?thesis
        by (simp add: contents_nth sz2 d2 add.assoc)
    qed
  qed
  with er sz2 c2 have "\<exists>it' mb2 h2. erase mb1 p k h1 = Inr (it', mb2, h2) \<and>
            m_Size mb2 = m_Size mb \<and> contents mb2 h2 = contents mb h \<and>
            capacity mb2 = capacity mb1"
    by blast
  with p sz it before after show ?thesis by simp
qed

theorem insert_then_erase_restores_witness:
  "wf (memblock_link 50 5) heap0 \<and>
   (\<exists>it mb1 h1. insert_mb (memblock_link 50 5) 2 2 heap0 = Inr (it, mb1, h1) \<and>
      m_Size mb1 = 7 \<and>
      (\<exists>it' mb2 h2. erase mb1 2 2 h1 = Inr (it', mb2, h2) \<and> m_Size mb2 = 5 \<and>
         contents mb2 h2 = contents (memblock_link 50 5) heap0))"
proof -
  from reserve_unowned_succeeds [where mb = "memblock_link 50 5" and h = heap0 and n = 7]
  obtain mb0 h0 where "reserve (memblock_link 50 5) 7 True heap0 = Inr (mb0, h0)"
    by (auto simp: link50 heap0_simps)
  from resize_succeeds [OF this]
  have "resize (memblock_link 50 5) (m_Size (memblock_link 50 5) + 2) True heap0 =
          Inr (mb0\<lparr>m_Size := 7\<rparr>, h0)"
    by (simp add: link50)
  from insert_mb_succeeds [OF _ this, of 2]
  obtain it mb1 h1 where ins: "insert_mb (memblock_link 50 5) 2 2 heap0 = Inr (it, mb1, h1)"
    by (auto simp: link50)
  from insert_then_erase_restores [OF link50(4) ins]
  have "m_Size mb1 = 7 \<and>
      (\<exists>it' mb2 h2. erase mb1 2 2 h1 = Inr (it', mb2, h2) \<and> m_Size mb2 = 5 \<and>
         contents mb2 h2 = contents (memblock_link 50 5) heap0)"
    by (auto simp: link50)
  with ins link50(4) show ?thesis by blast
qed

text \<open>
  C8: swap exchanges the three fields of the two buffers and touches no memory (it takes
  and returns the two buffers only), so the allocated capacity of the pair is unchanged;
  swapping twice gives both buffers back.
\<close>

theorem swap_exchanges_fields:
  "swap a b = (b, a) \<and>
   (case swap a b of (a', b') \<Rightarrow>
      m_Data a' = m_Data b \<and> m_Size a' = m_Size b \<and> m_AllocatedSize a' = m_AllocatedSize b \<and>
      m_Data b' = m_Data a \<and> m_Size b' = m_Size a \<and> m_AllocatedSize b' = m_AllocatedSize a \<and>
      capacity a' + capacity b' = capacity a + capacity b \<and>
      swap a' b' = (a, b))"
  by (simp add: swap_def memlink_swap_def capacity_def)

text \<open>
  C9: deallocate always leaves the empty unlinked buffer; it calls free exactly when the
  buffer was owned, on the buffer's storage, and otherwise leaves the heap alone; a
  second deallocate changes nothing and frees nothing.
\<close>

theorem deallocate_idempotent:
  "fst (deallocate mb h) = memblock_empty \<and>
   snd (deallocate mb h) = (if 0 < m_AllocatedSize mb then heap_free (m_Data mb) h else h) \<and>
   freed (snd (deallocate mb h)) =
     (if 0 < m_AllocatedSize mb then m_Data mb # freed h else freed h) \<and>
   deallocate (fst (deallocate mb h)) (snd (deallocate mb h)) = deallocate mb h \<and>
   \<not> is_linked (fst (deallocate mb h)) \<and> m_Data (fst (deallocate mb h)) = 0"
  by (simp add: deallocate_def unlink_def memlink_unlink_def memblock_empty_def heap_free_def
      is_linked_def)

text \<open>
  C10: clear always succeeds, sets the length to 0 and leaves pointer, allocated size and
  heap as they were, so an owned buffer stays owned and a linked one stays linked to the
  same memory.
\<close>

theorem clear_keeps_storage:
  "clear mb h = Inr (mb\<lparr>m_Size := 0\<rparr>, h) \<and>
   m_Data (mb\<lparr>m_Size := 0\<rparr>) = m_Data mb \<and>
   capacity (mb\<lparr>m_Size := 0\<rparr>) = capacity mb \<and>
   is_linked (mb\<lparr>m_Size := 0\<rparr>) = is_linked mb"
  by (simp add: clear_def resize_def reserve_def memlink_resize_def capacity_def is_linked_def)

end
